theory Spec2Isabelle
  imports Main "HOL-Library.Word"
begin

section \<open>Building a DNS query: the wire-format encoder of part 1\<close>

text \<open>
  The notebook defines two dataclasses (\<open>DNSHeader\<close>, \<open>DNSQuestion\<close>) and four functions:
  \<open>header_to_bytes\<close>, \<open>question_to_bytes\<close>, \<open>encode_dns_name\<close> and \<open>build_query\<close>.
  They are embedded below as HOL functions. A Python \<open>bytes\<close> value is a list of 8-bit
  words, a Python \<open>str\<close> is the list of its Unicode code points, a Python \<open>int\<close> is an
  \<open>int\<close>, and every exception the code can raise is a value \<open>Inl e\<close> of a sum type.
\<close>

subsection \<open>Data\<close>

type_synonym byte = "8 word"
type_synonym bytes = "byte list"

text \<open>A Python \<open>str\<close>: its code points, in order (so \<open>length\<close> is Python's \<open>len\<close>).\<close>

type_synonym pystr = "nat list"

text \<open>A string literal of the source, as its code points.\<close>

definition str :: "string \<Rightarrow> pystr" where
  "str s = map of_char s"

text \<open>
  The exceptions of the Python library calls the code makes:
  \<open>str.encode("ascii")\<close> raises \<open>UnicodeEncodeError\<close>, \<open>bytes([n])\<close> raises
  \<open>ValueError\<close>, \<open>struct.pack\<close> raises \<open>struct.error\<close>.
\<close>

datatype error = UnicodeEncodeError | ValueError | StructError

text \<open>
  \<^verbatim>\<open>
  @dataclass
  class DNSHeader:
      id: int
      flags: int
      num_questions: int = 0
      num_answers: int = 0
      num_authorities: int = 0
      num_additionals: int = 0
  \<close>
  The field \<open>id\<close> is called \<open>ident\<close> here, since \<open>id\<close> is the identity function of HOL.
\<close>

record DNSHeader =
  ident :: int
  flags :: int
  num_questions :: int
  num_answers :: int
  num_authorities :: int
  num_additionals :: int

text \<open>
  \<^verbatim>\<open>
  @dataclass
  class DNSQuestion:
      name: bytes
      type_: int
      class_: int
  \<close>
\<close>

record DNSQuestion =
  name :: bytes
  type' :: int
  class' :: int

subsection \<open>The library calls\<close>

text \<open>
  \<open>dataclasses.astuple(header)\<close>: the fields of the header in the order of their
  declaration.
\<close>

definition astuple :: "DNSHeader \<Rightarrow> int list" where
  "astuple header =
     [ident header, flags header, num_questions header,
      num_answers header, num_authorities header, num_additionals header]"

text \<open>
  One \<open>H\<close> of a \<open>struct.pack\<close> format in network byte order (\<open>!\<close>): an unsigned 16-bit
  integer, most significant byte first. A value outside \<open>0..65535\<close> raises
  \<open>struct.error\<close>.
\<close>

definition pack_H :: "int \<Rightarrow> error + bytes" where
  "pack_H v =
     (if 0 \<le> v \<and> v \<le> 65535 then Inr [word_of_int (v div 256), word_of_int (v mod 256)]
      else Inl StructError)"

text \<open>The arguments of a \<open>struct.pack\<close> call are packed from left to right.\<close>

fun pack_Hs :: "int list \<Rightarrow> error + bytes" where
  "pack_Hs [] = Inr []"
| "pack_Hs (v # vs) =
     (case pack_H v of
        Inl e \<Rightarrow> Inl e
      | Inr b \<Rightarrow> (case pack_Hs vs of Inl e \<Rightarrow> Inl e | Inr bs \<Rightarrow> Inr (b @ bs)))"

text \<open>
  \<open>struct.pack("!H...H", *args)\<close> with \<open>n\<close> letters \<open>H\<close>: \<open>struct.error\<close> when the number
  of arguments is not \<open>n\<close>.
\<close>

definition struct_pack_H :: "nat \<Rightarrow> int list \<Rightarrow> error + bytes" where
  "struct_pack_H n args = (if length args = n then pack_Hs args else Inl StructError)"

text \<open>\<open>s.isascii()\<close>: every code point of the string is below 128.\<close>

definition isascii :: "pystr \<Rightarrow> bool" where
  "isascii s = list_all (\<lambda>c. c < 128) s"

text \<open>
  \<open>s.encode("ascii")\<close>: one byte for each code point, \<open>UnicodeEncodeError\<close> when a code
  point is not below 128.
\<close>

definition encode_ascii :: "pystr \<Rightarrow> error + bytes" where
  "encode_ascii s = (if isascii s then Inr (map of_nat s) else Inl UnicodeEncodeError)"

text \<open>
  \<open>b.split(sep)\<close> for a separator of one byte: the parts between the occurrences of the
  separator, empty parts included; \<open>b"".split(b".")\<close> is \<open>[b""]\<close>.
\<close>

fun split :: "byte \<Rightarrow> bytes \<Rightarrow> bytes list" where
  "split sep [] = [[]]"
| "split sep (b # bs) =
     (if b = sep then [] # split sep bs
      else (let r = split sep bs in (b # hd r) # tl r))"

text \<open>\<open>bytes([n])\<close>: the one byte \<open>n\<close>, \<open>ValueError\<close> when \<open>n\<close> is not in \<open>range(256)\<close>.\<close>

definition bytes1 :: "nat \<Rightarrow> error + bytes" where
  "bytes1 n = (if n < 256 then Inr [of_nat n] else Inl ValueError)"

subsection \<open>The functions of the notebook\<close>

text \<open>
  \<^verbatim>\<open>
  def header_to_bytes(header):
      fields = dataclasses.astuple(header)
      # there are 6 `H`s because there are 6 fields
      return struct.pack("!HHHHHH", *fields)
  \<close>
\<close>

definition header_to_bytes :: "DNSHeader \<Rightarrow> error + bytes" where
  "header_to_bytes header = (let fields = astuple header in struct_pack_H 6 fields)"

text \<open>
  \<^verbatim>\<open>
  def question_to_bytes(question):
      return question.name + struct.pack("!HH", question.type_, question.class_)
  \<close>
\<close>

definition question_to_bytes :: "DNSQuestion \<Rightarrow> error + bytes" where
  "question_to_bytes question =
     (case struct_pack_H 2 [type' question, class' question] of
        Inl e \<Rightarrow> Inl e
      | Inr b \<Rightarrow> Inr (name question @ b))"

text \<open>
  \<^verbatim>\<open>
  def encode_dns_name(domain_name):
      encoded = b""
      for part in domain_name.encode("ascii").split(b"."):
          encoded += bytes([len(part)]) + part
      return encoded + b"\x00"
  \<close>
  The loop, with the value of \<open>encoded\<close> passed along:
\<close>

fun encode_parts :: "bytes \<Rightarrow> bytes list \<Rightarrow> error + bytes" where
  "encode_parts encoded [] = Inr encoded"
| "encode_parts encoded (part # parts) =
     (case bytes1 (length part) of
        Inl e \<Rightarrow> Inl e
      | Inr l \<Rightarrow> encode_parts (encoded @ (l @ part)) parts)"

definition encode_dns_name :: "pystr \<Rightarrow> error + bytes" where
  "encode_dns_name domain_name =
     (case encode_ascii domain_name of
        Inl e \<Rightarrow> Inl e
      | Inr b \<Rightarrow>
          (case encode_parts [] (split 0x2E b) of
             Inl e \<Rightarrow> Inl e
           | Inr encoded \<Rightarrow> Inr (encoded @ [0x00])))"

text \<open>
  \<^verbatim>\<open>
  TYPE_A = 1
  CLASS_IN = 1

  def build_query(domain_name, record_type):
      name = encode_dns_name(domain_name)
      id = random.randint(0, 65535)
      RECURSION_DESIRED = 1 << 8
      header = DNSHeader(id=id, num_questions=1, flags=RECURSION_DESIRED)
      question = DNSQuestion(name=name, type_=record_type, class_=CLASS_IN)
      return header_to_bytes(header) + question_to_bytes(question)
  \<close>
  The value that \<open>random.randint(0, 65535)\<close> returns is the parameter \<open>rid\<close>: an unsigned
  16-bit word, since the call returns an integer from 0 to 65535. The fields that the
  constructor call leaves out have the defaults of the dataclass, 0. The local variables
  \<open>id\<close> and \<open>name\<close> are written \<open>id'\<close> and \<open>name'\<close>.
\<close>

definition TYPE_A :: int where
  "TYPE_A = 1"

definition CLASS_IN :: int where
  "CLASS_IN = 1"

definition build_query :: "16 word \<Rightarrow> pystr \<Rightarrow> int \<Rightarrow> error + bytes" where
  "build_query rid domain_name record_type =
     (case encode_dns_name domain_name of
        Inl e \<Rightarrow> Inl e
      | Inr name' \<Rightarrow>
          (let id' = uint rid;
               RECURSION_DESIRED = push_bit 8 (1 :: int);
               header = \<lparr>ident = id', flags = RECURSION_DESIRED, num_questions = 1,
                         num_answers = 0, num_authorities = 0, num_additionals = 0\<rparr>;
               question = \<lparr>name = name', type' = record_type, class' = CLASS_IN\<rparr>
           in (case header_to_bytes header of
                 Inl e \<Rightarrow> Inl e
               | Inr h \<Rightarrow>
                   (case question_to_bytes question of
                      Inl e \<Rightarrow> Inl e
                    | Inr q \<Rightarrow> Inr (h @ q)))))"

subsection \<open>Reading the claims\<close>

text \<open>A value lies in the range of an unsigned 16-bit integer, 0 to 65535.\<close>

definition u16_range :: "int \<Rightarrow> bool" where
  "u16_range v = (0 \<le> v \<and> v \<le> 65535)"

text \<open>
  The unsigned 16-bit integer that a byte sequence holds at offset \<open>i\<close>, most significant
  byte first; \<open>None\<close> when the sequence has no two bytes there.
\<close>

definition read_u16_be :: "bytes \<Rightarrow> nat \<Rightarrow> int option" where
  "read_u16_be bs i =
     (if i + 2 \<le> length bs then Some (256 * uint (bs ! i) + uint (bs ! (i + 1))) else None)"

text \<open>
  The decoder of the round-trip property, in the words of the specification (the notebook
  has no decoder): read a length prefix and that many bytes, again and again; a length
  of zero is the terminator. The result is the labels read and the bytes that follow the
  terminator; \<open>None\<close> when the input ends before a terminator or inside a label.
\<close>

fun spec_decode_labels :: "bytes \<Rightarrow> (bytes list \<times> bytes) option" where
  "spec_decode_labels [] = None"
| "spec_decode_labels (n # bs) =
     (if n = 0 then Some ([], bs)
      else if length bs < unat n then None
      else (case spec_decode_labels (drop (unat n) bs) of
              None \<Rightarrow> None
            | Some (ls, rest) \<Rightarrow> Some (take (unat n) bs # ls, rest)))"

section \<open>Properties of the library calls and of the loop\<close>

lemma split_not_Nil: "split sep bs \<noteq> []"
  by (induction bs) (auto simp: Let_def)

lemma split_snoc_sep: "split sep (bs @ [sep]) = split sep bs @ [[]]"
  by (induction bs) (auto simp: Let_def split_not_Nil)

lemma split_last_last:
  "last (split sep bs) \<noteq> [] \<Longrightarrow> last (last (split sep bs)) = last bs"
proof (induction bs)
  case Nil
  then show ?case by simp
next
  case (Cons b bs)
  show ?case
  proof (cases "b = sep")
    case True
    with Cons show ?thesis
      by (cases bs) (auto simp: split_not_Nil Let_def)
  next
    case False
    with Cons show ?thesis
      by (cases bs; cases "split sep bs") (auto simp: split_not_Nil Let_def split: if_splits)
  qed
qed

text \<open>The loop fails on the first part of 256 bytes or more and frames each part otherwise.\<close>

lemma encode_parts_eq:
  "encode_parts encoded parts =
     (if list_all (\<lambda>p. length p < 256) parts
      then Inr (encoded @ concat (map (\<lambda>p. of_nat (length p) # p) parts))
      else Inl ValueError)"
  by (induction parts arbitrary: encoded) (auto simp: bytes1_def)

lemma encode_dns_name_eq:
  "encode_dns_name d =
     (if \<not> isascii d then Inl UnicodeEncodeError
      else if list_all (\<lambda>p. length p < 256) (split 0x2E (map of_nat d))
      then Inr (concat (map (\<lambda>p. of_nat (length p) # p) (split 0x2E (map of_nat d))) @ [0x00])
      else Inl ValueError)"
  by (simp add: encode_dns_name_def encode_ascii_def encode_parts_eq)

lemma last_concat_frames:
  "ps \<noteq> [] \<Longrightarrow> last ps \<noteq> [] \<Longrightarrow>
   last (concat (map (\<lambda>p. of_nat (length p) # p) ps)) = last (last ps)"
  by (induction ps) auto

lemma decode_frames:
  "list_all (\<lambda>p. 1 \<le> length p \<and> length p < 256) ps \<Longrightarrow>
   spec_decode_labels (concat (map (\<lambda>p. of_nat (length p) # p) ps) @ 0 # rest) = Some (ps, rest)"
proof (induction ps)
  case Nil
  then show ?case by simp
next
  case (Cons p ps)
  then have len: "0 < length p" "length p < 2 ^ LENGTH(8)"
    by (simp_all add: Suc_le_eq)
  have nz: "(of_nat (length p) :: byte) \<noteq> 0"
    using len by (rule of_nat_neq_0)
  have un: "unat (of_nat (length p) :: byte) = length p"
    using len(2) by (simp add: unat_of_nat take_bit_nat_eq_self)
  from Cons show ?case
    by (simp add: nz un)
qed

lemma pack_Hs_error: "\<not> list_all u16_range vs \<Longrightarrow> pack_Hs vs = Inl StructError"
  by (induction vs) (auto simp: pack_H_def u16_range_def split: sum.splits)

lemma pack_Hs_ok:
  "list_all u16_range vs \<Longrightarrow>
   pack_Hs vs = Inr (concat (map (\<lambda>v. [word_of_int (v div 256), word_of_int (v mod 256)]) vs))"
  by (induction vs) (auto simp: pack_H_def u16_range_def split: sum.splits)

lemma u16_be_pack:
  assumes "u16_range v"
  shows "256 * uint (word_of_int (v div 256) :: byte) + uint (word_of_int (v mod 256) :: byte) = v"
proof -
  have "0 \<le> v div 256" "v div 256 < 256"
    using assms by (auto simp: u16_range_def)
  then have "(v div 256) mod 256 = v div 256"
    by simp
  then show ?thesis
    by (simp add: uint_word_of_int)
qed

lemma u16_range_uint: "u16_range (uint (w :: 16 word))"
proof -
  have "uint w < 2 ^ LENGTH(16)"
    by (rule uint_lt2p)
  then show ?thesis
    by (simp add: u16_range_def)
qed

lemma header_to_bytes_ok:
  assumes "u16_range (ident h)" "u16_range (flags h)" "u16_range (num_questions h)"
    "u16_range (num_answers h)" "u16_range (num_authorities h)" "u16_range (num_additionals h)"
  shows "header_to_bytes h =
     Inr [word_of_int (ident h div 256), word_of_int (ident h mod 256),
          word_of_int (flags h div 256), word_of_int (flags h mod 256),
          word_of_int (num_questions h div 256), word_of_int (num_questions h mod 256),
          word_of_int (num_answers h div 256), word_of_int (num_answers h mod 256),
          word_of_int (num_authorities h div 256), word_of_int (num_authorities h mod 256),
          word_of_int (num_additionals h div 256), word_of_int (num_additionals h mod 256)]"
  using assms
  by (simp add: header_to_bytes_def astuple_def struct_pack_H_def pack_Hs_ok del: pack_Hs.simps)

lemma question_to_bytes_eq:
  "question_to_bytes q =
     (if u16_range (type' q) \<and> u16_range (class' q)
      then Inr (name q @ [word_of_int (type' q div 256), word_of_int (type' q mod 256),
                          word_of_int (class' q div 256), word_of_int (class' q mod 256)])
      else Inl StructError)"
  by (simp add: question_to_bytes_def struct_pack_H_def pack_H_def u16_range_def)

text \<open>The whole message, for a name that encodes and a record type of 16 bits.\<close>

lemma build_query_eq:
  "build_query rid d t =
     (case encode_dns_name d of
        Inl e \<Rightarrow> Inl e
      | Inr n \<Rightarrow>
          if u16_range t
          then Inr ([word_of_int (uint rid div 256), word_of_int (uint rid mod 256),
                     0x01, 0x00, 0x00, 0x01, 0x00, 0x00, 0x00, 0x00, 0x00, 0x00]
                    @ n @ [word_of_int (t div 256), word_of_int (t mod 256), 0x00, 0x01])
          else Inl StructError)"
proof (cases "encode_dns_name d")
  case (Inl e)
  then show ?thesis
    by (simp add: build_query_def)
next
  case (Inr n)
  have h: "header_to_bytes \<lparr>ident = uint rid, flags = 256, num_questions = 1,
             num_answers = 0, num_authorities = 0, num_additionals = 0\<rparr>
           = Inr [word_of_int (uint rid div 256), word_of_int (uint rid mod 256),
                     0x01, 0x00, 0x00, 0x01, 0x00, 0x00, 0x00, 0x00, 0x00, 0x00]"
    using u16_range_uint [of rid] by (simp add: header_to_bytes_ok u16_range_def)
  show ?thesis
    by (simp add: build_query_def Inr h question_to_bytes_eq CLASS_IN_def)
       (simp add: u16_range_def)
qed

section \<open>The header\<close>

text \<open>
  C7: for a header whose six fields each lie in 0..65535, \<open>header_to_bytes\<close> returns
  exactly 12 bytes: the fields \<open>id\<close>, \<open>flags\<close>, \<open>num_questions\<close>, \<open>num_answers\<close>,
  \<open>num_authorities\<close>, \<open>num_additionals\<close> in this order, each as an unsigned 16-bit
  integer with its most significant byte first. Reading the two bytes at offset \<open>2 * k\<close>
  as such an integer gives field \<open>k\<close> back.
\<close>

theorem header_to_bytes_layout:
  assumes "u16_range (ident h)" "u16_range (flags h)" "u16_range (num_questions h)"
    "u16_range (num_answers h)" "u16_range (num_authorities h)" "u16_range (num_additionals h)"
  shows "\<exists>bs. header_to_bytes h = Inr bs \<and> length bs = 12
     \<and> bs = [word_of_int (ident h div 256), word_of_int (ident h mod 256),
             word_of_int (flags h div 256), word_of_int (flags h mod 256),
             word_of_int (num_questions h div 256), word_of_int (num_questions h mod 256),
             word_of_int (num_answers h div 256), word_of_int (num_answers h mod 256),
             word_of_int (num_authorities h div 256), word_of_int (num_authorities h mod 256),
             word_of_int (num_additionals h div 256), word_of_int (num_additionals h mod 256)]
     \<and> read_u16_be bs 0 = Some (ident h)
     \<and> read_u16_be bs 2 = Some (flags h)
     \<and> read_u16_be bs 4 = Some (num_questions h)
     \<and> read_u16_be bs 6 = Some (num_answers h)
     \<and> read_u16_be bs 8 = Some (num_authorities h)
     \<and> read_u16_be bs 10 = Some (num_additionals h)"
  using assms by (simp add: header_to_bytes_ok read_u16_be_def u16_be_pack)

text \<open>The header of the notebook's own example, \<open>id = 0x1314\<close> and one question.\<close>

theorem header_to_bytes_layout_witness:
  "u16_range 0x1314 \<and> u16_range 0 \<and> u16_range 1
   \<and> header_to_bytes \<lparr>ident = 0x1314, flags = 0, num_questions = 1, num_answers = 0,
        num_authorities = 0, num_additionals = 0\<rparr>
      = Inr [0x13, 0x14, 0x00, 0x00, 0x00, 0x01, 0x00, 0x00, 0x00, 0x00, 0x00, 0x00]"
  using header_to_bytes_layout [of "\<lparr>ident = 0x1314, flags = 0, num_questions = 1,
        num_answers = 0, num_authorities = 0, num_additionals = 0\<rparr>"]
  by (simp add: u16_range_def)

text \<open>
  C9: for a header in which some field is above 65535 or negative, \<open>header_to_bytes\<close>
  raises an error (\<open>struct.error\<close>); it returns no bytes and truncates nothing.
\<close>

theorem header_to_bytes_out_of_range:
  assumes "\<not> (u16_range (ident h) \<and> u16_range (flags h) \<and> u16_range (num_questions h)
    \<and> u16_range (num_answers h) \<and> u16_range (num_authorities h)
    \<and> u16_range (num_additionals h))"
  shows "header_to_bytes h = Inl StructError"
proof -
  from assms have "\<not> list_all u16_range (astuple h)"
    by (simp add: astuple_def)
  then have "pack_Hs (astuple h) = Inl StructError"
    by (rule pack_Hs_error)
  then show ?thesis
    by (simp add: header_to_bytes_def struct_pack_H_def Let_def)
qed

text \<open>An \<open>id\<close> of 65536, and a count of -1.\<close>

theorem header_to_bytes_out_of_range_witness:
  "\<not> u16_range 65536 \<and> \<not> u16_range (- 1)
   \<and> header_to_bytes \<lparr>ident = 65536, flags = 0, num_questions = 1, num_answers = 0,
        num_authorities = 0, num_additionals = 0\<rparr> = Inl StructError
   \<and> header_to_bytes \<lparr>ident = 0, flags = 0, num_questions = 1, num_answers = 0,
        num_authorities = 0, num_additionals = - 1\<rparr> = Inl StructError"
  using header_to_bytes_out_of_range [of "\<lparr>ident = 65536, flags = 0, num_questions = 1,
        num_answers = 0, num_authorities = 0, num_additionals = 0\<rparr>"]
    header_to_bytes_out_of_range [of "\<lparr>ident = 0, flags = 0, num_questions = 1,
        num_answers = 0, num_authorities = 0, num_additionals = - 1\<rparr>"]
  by (simp add: u16_range_def)

section \<open>The encoded name\<close>

text \<open>
  C8: \<open>encode_dns_name("google.com")\<close> is the 12 bytes \<open>06 676f6f676c65 03 636f6d 00\<close>.
\<close>

theorem encode_dns_name_google_com:
  "encode_dns_name (str ''google.com'') =
     Inr [0x06, 0x67, 0x6f, 0x6f, 0x67, 0x6c, 0x65, 0x03, 0x63, 0x6f, 0x6d, 0x00]
   \<and> length [0x06, 0x67, 0x6f, 0x6f, 0x67, 0x6c, 0x65, 0x03, 0x63, 0x6f, 0x6d, 0x00 :: byte] = 12"
  by (simp add: encode_dns_name_def encode_ascii_def isascii_def str_def bytes1_def Let_def)

text \<open>
  C10: \<open>encode_dns_name("")\<close> is the 2 bytes \<open>00 00\<close>, a label of length zero and the
  terminator, and not the one byte \<open>00\<close> of the root name.
\<close>

theorem encode_dns_name_empty:
  "encode_dns_name [] = Inr [0x00, 0x00] \<and> encode_dns_name [] \<noteq> Inr [0x00]"
  by (simp add: encode_dns_name_def encode_ascii_def isascii_def bytes1_def)

text \<open>
  C3: for a domain name with a code point that is not ASCII, \<open>encode_dns_name\<close> raises
  (\<open>UnicodeEncodeError\<close>) and returns no bytes, and so does \<open>build_query\<close>, whatever the
  transaction id and the record type.
\<close>

theorem encode_dns_name_non_ascii:
  assumes "\<not> isascii d"
  shows "encode_dns_name d = Inl UnicodeEncodeError
     \<and> build_query rid d t = Inl UnicodeEncodeError"
  using assms by (simp add: build_query_def encode_dns_name_def encode_ascii_def)

text \<open>The name \<open>caf\<close> followed by U+00E9, and a name with the code point U+4F8B.\<close>

theorem encode_dns_name_non_ascii_witness:
  "\<not> isascii [0x63, 0x61, 0x66, 0xE9]
   \<and> encode_dns_name [0x63, 0x61, 0x66, 0xE9] = Inl UnicodeEncodeError
   \<and> build_query 0x8298 [0x63, 0x61, 0x66, 0xE9] 1 = Inl UnicodeEncodeError
   \<and> \<not> isascii (0x4F8B # str ''.com'')
   \<and> build_query 0x8298 (0x4F8B # str ''.com'') 1 = Inl UnicodeEncodeError"
  using encode_dns_name_non_ascii [of "[0x63, 0x61, 0x66, 0xE9]" "0x8298" 1]
    encode_dns_name_non_ascii [of "0x4F8B # str ''.com''" "0x8298" 1]
  by (simp add: isascii_def)

text \<open>
  C2, as the specification states it: for an ASCII name that ends in a dot the output ends
  in exactly one zero byte. It fails: the part after the last dot is empty and the loop
  emits it as a label of length zero, before the terminator. \<open>encode_dns_name("google.com.")\<close>
  ends in two zero bytes.
\<close>

theorem encode_dns_name_trailing_dot_counterexample:
  "isascii (str ''google.com.'')
   \<and> encode_dns_name (str ''google.com.'') =
       Inr ([0x06, 0x67, 0x6f, 0x6f, 0x67, 0x6c, 0x65, 0x03, 0x63, 0x6f, 0x6d] @ [0x00, 0x00])"
  by (simp add: encode_dns_name_def encode_ascii_def isascii_def str_def bytes1_def Let_def)

text \<open>
  C2, amended: for an ASCII name \<open>d\<close>, the encoding of \<open>d\<close> followed by a dot is the
  encoding of \<open>d\<close> followed by one more zero byte, so it ends in two zero bytes: the
  empty part after the dot is a label of length zero of its own, and the terminator
  follows it. Where \<open>d\<close> does not encode (a part of 256 bytes or more), neither does
  \<open>d\<close> followed by a dot.
\<close>

theorem encode_dns_name_trailing_dot:
  assumes "isascii d"
  shows "case encode_dns_name d of
           Inl e \<Rightarrow> encode_dns_name (d @ str ''.'') = Inl e
         | Inr out \<Rightarrow>
             (\<exists>body. out = body @ [0x00]
                \<and> encode_dns_name (d @ str ''.'') = Inr (body @ [0x00, 0x00]))"
proof -
  have a: "isascii (d @ str ''.'')"
    using assms by (simp add: isascii_def str_def)
  have s: "map of_nat (str ''.'') = [0x2E :: byte]"
    by (simp add: str_def)
  show ?thesis
    using assms a by (simp add: encode_dns_name_eq s split_snoc_sep)
qed

theorem encode_dns_name_trailing_dot_witness:
  "isascii (str ''example.com'')
   \<and> encode_dns_name (str ''example.com'') =
       Inr [0x07, 0x65, 0x78, 0x61, 0x6d, 0x70, 0x6c, 0x65, 0x03, 0x63, 0x6f, 0x6d, 0x00]
   \<and> encode_dns_name (str ''example.com'' @ str ''.'') =
       Inr [0x07, 0x65, 0x78, 0x61, 0x6d, 0x70, 0x6c, 0x65, 0x03, 0x63, 0x6f, 0x6d, 0x00, 0x00]"
proof -
  have a: "isascii (str ''example.com'')"
    by (simp add: isascii_def str_def)
  have e: "encode_dns_name (str ''example.com'') =
       Inr [0x07, 0x65, 0x78, 0x61, 0x6d, 0x70, 0x6c, 0x65, 0x03, 0x63, 0x6f, 0x6d, 0x00]"
    by (simp add: encode_dns_name_def encode_ascii_def isascii_def str_def bytes1_def Let_def)
  show ?thesis
    using encode_dns_name_trailing_dot [OF a] a by (simp add: e)
qed

text \<open>
  C6, as the specification states it: for an ASCII name whose labels are each at most 63
  bytes long, the output begins with the length of the first label, ends with a single
  zero byte, and decodes to the labels. It fails where a label is empty: \<open>"a."\<close> has the
  labels \<open>a\<close> and the empty one, its encoding \<open>01 61 00 00\<close> ends in two zero bytes, and
  the decoder stops at the first of them with the one label \<open>a\<close>. A name that ends in
  the character NUL, as \<open>"a\x00"\<close>, is ASCII too, and its encoding \<open>02 61 00 00\<close> ends in
  two zero bytes.
\<close>

theorem encode_dns_name_roundtrip_counterexample:
  "encode_ascii (str ''a.'') = Inr [0x61, 0x2E]
   \<and> split 0x2E [0x61, 0x2E] = [[0x61], []]
   \<and> length [0x61 :: byte] \<le> 63 \<and> length ([] :: bytes) \<le> 63
   \<and> encode_dns_name (str ''a.'') = Inr [0x01, 0x61, 0x00, 0x00]
   \<and> spec_decode_labels [0x01, 0x61, 0x00, 0x00] = Some ([[0x61]], [0x00])
   \<and> encode_ascii [0x61, 0x00] = Inr [0x61, 0x00]
   \<and> split 0x2E [0x61, 0x00] = [[0x61, 0x00]]
   \<and> length [0x61, 0x00 :: byte] \<le> 63
   \<and> encode_dns_name [0x61, 0x00] = Inr [0x02, 0x61, 0x00, 0x00]"
  by (simp add: encode_dns_name_def encode_ascii_def isascii_def str_def bytes1_def Let_def)

text \<open>
  C6, amended: for an ASCII name whose labels are each from 1 to 63 bytes long, the output
  of \<open>encode_dns_name\<close> begins with a length byte equal to the length of the first
  label, its last byte is zero, and decoding it by reading a length prefix and that many
  bytes, again and again, up to the first length of zero, reads the whole output and
  gives exactly the labels of the name, in order. Where the name does not end in the
  character NUL, the byte before the last one is not zero: the output ends in a single
  zero byte. (\<open>b\<close> is the name as bytes, \<open>split 0x2E b\<close> its labels.)
\<close>

theorem encode_dns_name_roundtrip:
  assumes "encode_ascii d = Inr b"
      and "list_all (\<lambda>l. 1 \<le> length l \<and> length l \<le> 63) (split 0x2E b)"
  shows "\<exists>out. encode_dns_name d = Inr out
           \<and> out \<noteq> [] \<and> split 0x2E b \<noteq> [] \<and> unat (hd out) = length (hd (split 0x2E b))
           \<and> last out = 0x00
           \<and> spec_decode_labels out = Some (split 0x2E b, [])
           \<and> (last d \<noteq> 0 \<longrightarrow> butlast out \<noteq> [] \<and> last (butlast out) \<noteq> 0x00)"
proof -
  let ?ls = "split 0x2E b"
  let ?fr = "concat (map (\<lambda>p. of_nat (length p) # p) ?ls)"
  from assms(1) have asc: "isascii d" and b: "b = map of_nat d"
    by (auto simp: encode_ascii_def split: if_splits)
  from assms(2) have ne: "list_all (\<lambda>l. 1 \<le> length l \<and> length l < 256) ?ls"
    by (auto simp: list_all_iff)
  then have short: "list_all (\<lambda>l. length l < 256) ?ls"
    by (simp add: list_all_iff)
  have out: "encode_dns_name d = Inr (?fr @ [0x00])"
    using asc short by (simp add: encode_dns_name_eq b)
  obtain l ls where ls: "?ls = l # ls"
    using split_not_Nil [of "0x2E" b] by (cases ?ls) auto
  have l: "length l < 2 ^ LENGTH(8)"
    using short by (simp add: ls)
  have first: "unat (hd (?fr @ [0x00])) = length (hd ?ls)"
    using l by (simp add: ls unat_of_nat take_bit_nat_eq_self)
  have dec: "spec_decode_labels (?fr @ [0x00]) = Some (?ls, [])"
    using decode_frames [OF ne, of "[]"] by simp
  have fr_ne: "?fr \<noteq> []"
    by (simp add: ls)
  have lastl: "last ?ls \<noteq> []"
  proof -
    have "last ?ls \<in> set ?ls"
      by (simp add: ls)
    with ne have "1 \<le> length (last ?ls)"
      by (simp add: list_all_iff)
    then show ?thesis
      by auto
  qed
  have d_ne: "d \<noteq> []"
    using lastl by (auto simp: b)
  have "last ?fr = last (last ?ls)"
    using lastl by (intro last_concat_frames) (simp_all add: ls)
  also have "\<dots> = last b"
    using lastl by (rule split_last_last)
  also have "\<dots> = of_nat (last d)"
    using d_ne by (simp add: b last_map)
  finally have last_fr: "last ?fr = of_nat (last d)" .
  have nul: "last ?fr \<noteq> 0x00" if "last d \<noteq> 0"
  proof -
    have "last d \<in> set d"
      using d_ne by simp
    with asc have "last d < 128"
      by (simp add: isascii_def list_all_iff)
    then have "last d < 2 ^ LENGTH(8)"
      by simp
    with that have "(of_nat (last d) :: byte) \<noteq> 0"
      by (intro of_nat_neq_0) simp_all
    then show ?thesis
      by (simp add: last_fr)
  qed
  have bl: "butlast (?fr @ [0x00]) = ?fr"
    by (rule butlast_snoc)
  have "?fr @ [0x00] \<noteq> []" and "last (?fr @ [0x00]) = 0x00"
    by simp_all
  moreover have "?ls \<noteq> []"
    by (rule split_not_Nil)
  moreover have "last d \<noteq> 0 \<longrightarrow>
      butlast (?fr @ [0x00]) \<noteq> [] \<and> last (butlast (?fr @ [0x00])) \<noteq> 0x00"
    unfolding bl using fr_ne nul by blast
  ultimately show ?thesis
    using out first dec by blast
qed

text \<open>The name \<open>www.example.com\<close>, with the labels \<open>www\<close>, \<open>example\<close> and \<open>com\<close>.\<close>

theorem encode_dns_name_roundtrip_witness:
  "encode_ascii (str ''www.example.com'') = Inr (map of_char ''www.example.com'')
   \<and> split 0x2E (map of_char ''www.example.com'') =
       [map of_char ''www'', map of_char ''example'', map of_char ''com'']
   \<and> (\<exists>out. encode_dns_name (str ''www.example.com'') = Inr out
         \<and> unat (hd out) = 3 \<and> last out = 0x00 \<and> last (butlast out) \<noteq> 0x00
         \<and> spec_decode_labels out =
             Some ([map of_char ''www'', map of_char ''example'', map of_char ''com''], []))"
proof -
  have a: "encode_ascii (str ''www.example.com'') = Inr (map of_char ''www.example.com'')"
    by (simp add: encode_ascii_def isascii_def str_def)
  have s: "split 0x2E (map of_char ''www.example.com'') =
       [map of_char ''www'', map of_char ''example'', map of_char ''com'']"
    by (simp add: Let_def)
  have l: "list_all (\<lambda>l. 1 \<le> length l \<and> length l \<le> 63)
       (split 0x2E (map of_char ''www.example.com''))"
    by (simp add: s)
  have d: "last (str ''www.example.com'') \<noteq> 0"
    by (simp add: str_def)
  show ?thesis
    using encode_dns_name_roundtrip [OF a l] a s d by auto
qed

section \<open>The query\<close>

text \<open>
  C1: \<open>build_query("www.example.com", 1)\<close> with the transaction id 0x8298 is the 33 bytes
  \<open>8298 0100 0001 0000 0000 0000 03 777777 07 6578616d706c65 03 636f6d 00 0001 0001\<close>.
\<close>

theorem build_query_reference_vector:
  "build_query 0x8298 (str ''www.example.com'') 1 =
     Inr [0x82, 0x98, 0x01, 0x00, 0x00, 0x01, 0x00, 0x00, 0x00, 0x00, 0x00, 0x00,
          0x03, 0x77, 0x77, 0x77,
          0x07, 0x65, 0x78, 0x61, 0x6d, 0x70, 0x6c, 0x65,
          0x03, 0x63, 0x6f, 0x6d, 0x00,
          0x00, 0x01, 0x00, 0x01]"
  by (simp add: build_query_def encode_dns_name_def encode_ascii_def isascii_def str_def
      bytes1_def Let_def header_to_bytes_def question_to_bytes_def astuple_def
      struct_pack_H_def pack_H_def CLASS_IN_def)

text \<open>
  C4: for an ASCII name \<open>d\<close> and a record type \<open>t\<close> of 16 bits, the length of
  \<open>build_query(d, t)\<close> is \<open>12 + len(encode_dns_name(d)) + 4\<close>, whatever the transaction
  id: where \<open>encode_dns_name(d)\<close> returns \<open>n\<close>, \<open>build_query\<close> returns a message of
  \<open>12 + len(n) + 4\<close> bytes, and where it raises, \<open>build_query\<close> raises the same error.
  The name \<open>example.com\<close> encodes to 13 bytes and \<open>build_query("example.com", 1)\<close>
  returns 29 bytes.
\<close>

theorem build_query_length:
  assumes "isascii d" and "u16_range t"
  shows "(case encode_dns_name d of
            Inl e \<Rightarrow> build_query rid d t = Inl e
          | Inr n \<Rightarrow> (\<exists>q. build_query rid d t = Inr q \<and> length q = 12 + length n + 4))
     \<and> (\<exists>n. encode_dns_name (str ''example.com'') = Inr n \<and> length n = 13)
     \<and> (\<exists>q. build_query rid (str ''example.com'') 1 = Inr q \<and> length q = 29)"
proof -
  have e: "encode_dns_name (str ''example.com'') =
      Inr [0x07, 0x65, 0x78, 0x61, 0x6d, 0x70, 0x6c, 0x65, 0x03, 0x63, 0x6f, 0x6d, 0x00]"
    by (simp add: encode_dns_name_def encode_ascii_def isascii_def str_def bytes1_def Let_def)
  have "case encode_dns_name d of
            Inl e \<Rightarrow> build_query rid d t = Inl e
          | Inr n \<Rightarrow> (\<exists>q. build_query rid d t = Inr q \<and> length q = 12 + length n + 4)"
    using assms(2) by (simp add: build_query_eq split: sum.splits)
  moreover have "\<exists>q. build_query rid (str ''example.com'') 1 = Inr q \<and> length q = 29"
    by (simp add: build_query_eq e u16_range_def)
  ultimately show ?thesis
    using e by simp
qed

text \<open>The query of the notebook's own run, with the transaction id 0x44cb.\<close>

theorem build_query_length_witness:
  "isascii (str ''example.com'') \<and> u16_range TYPE_A
   \<and> encode_dns_name (str ''example.com'') =
       Inr [0x07, 0x65, 0x78, 0x61, 0x6d, 0x70, 0x6c, 0x65, 0x03, 0x63, 0x6f, 0x6d, 0x00]
   \<and> (\<exists>q. build_query 0x44cb (str ''example.com'') TYPE_A = Inr q \<and> length q = 12 + 13 + 4)"
proof -
  have a: "isascii (str ''example.com'')"
    by (simp add: isascii_def str_def)
  have t: "u16_range TYPE_A"
    by (simp add: u16_range_def TYPE_A_def)
  have e: "encode_dns_name (str ''example.com'') =
      Inr [0x07, 0x65, 0x78, 0x61, 0x6d, 0x70, 0x6c, 0x65, 0x03, 0x63, 0x6f, 0x6d, 0x00]"
    by (simp add: encode_dns_name_def encode_ascii_def isascii_def str_def bytes1_def Let_def)
  show ?thesis
    using build_query_length [OF a t, of "0x44cb"] a t by (simp add: e)
qed

text \<open>
  C5: in every message that \<open>build_query\<close> returns, for any transaction id, name and
  record type, the header has the flags 0x0100 (Recursion Desired set, every other bit
  clear), \<open>num_questions = 1\<close> and \<open>num_answers = num_authorities = num_additionals = 0\<close>:
  the first 12 bytes of the message are the bytes of this header, and the 16-bit
  integers at the offsets 2, 4, 6, 8 and 10 are 0x0100, 1, 0, 0 and 0.
\<close>

theorem build_query_header_fields:
  assumes "build_query rid d t = Inr q"
  shows "header_to_bytes \<lparr>ident = uint rid, flags = 0x0100, num_questions = 1,
             num_answers = 0, num_authorities = 0, num_additionals = 0\<rparr> = Inr (take 12 q)
     \<and> read_u16_be q 2 = Some 0x0100
     \<and> read_u16_be q 4 = Some 1
     \<and> read_u16_be q 6 = Some 0
     \<and> read_u16_be q 8 = Some 0
     \<and> read_u16_be q 10 = Some 0"
  using assms u16_range_uint [of rid]
  by (auto simp: build_query_eq header_to_bytes_ok u16_range_def read_u16_be_def
      split: sum.splits if_splits)

theorem build_query_header_fields_witness:
  "build_query 0x44cb (str ''example.com'') TYPE_A =
     Inr [0x44, 0xcb, 0x01, 0x00, 0x00, 0x01, 0x00, 0x00, 0x00, 0x00, 0x00, 0x00,
          0x07, 0x65, 0x78, 0x61, 0x6d, 0x70, 0x6c, 0x65, 0x03, 0x63, 0x6f, 0x6d, 0x00,
          0x00, 0x01, 0x00, 0x01]
   \<and> read_u16_be [0x44, 0xcb, 0x01, 0x00, 0x00, 0x01, 0x00, 0x00, 0x00, 0x00, 0x00, 0x00,
          0x07, 0x65, 0x78, 0x61, 0x6d, 0x70, 0x6c, 0x65, 0x03, 0x63, 0x6f, 0x6d, 0x00,
          0x00, 0x01, 0x00, 0x01] 2 = Some 0x0100"
proof -
  have q: "build_query 0x44cb (str ''example.com'') TYPE_A =
     Inr [0x44, 0xcb, 0x01, 0x00, 0x00, 0x01, 0x00, 0x00, 0x00, 0x00, 0x00, 0x00,
          0x07, 0x65, 0x78, 0x61, 0x6d, 0x70, 0x6c, 0x65, 0x03, 0x63, 0x6f, 0x6d, 0x00,
          0x00, 0x01, 0x00, 0x01]"
    by (simp add: build_query_def encode_dns_name_def encode_ascii_def isascii_def str_def
        bytes1_def Let_def header_to_bytes_def question_to_bytes_def astuple_def
        struct_pack_H_def pack_H_def CLASS_IN_def TYPE_A_def)
  show ?thesis
    using build_query_header_fields [OF q] q by simp
qed

end
